theory Spec2Isabelle
  imports Complex_Main "HOL-Library.Monad_Syntax"
begin

section \<open>Data model of the table block\<close>

text \<open>
  The table editor lives in the component \<open>TableBlock\<close>. A table is a value of type
  \<open>TableData\<close>; every handler either hands a fresh value to \<open>onChange\<close> (the owner then
  replaces the table by it), returns without calling \<open>onChange\<close> (the owner keeps the old
  table), or throws a \<open>TypeError\<close> when it dereferences a row or cell that does not exist.

  Row and column indices and spans are natural numbers: they come from the indices of
  rendered cells. Column widths and row heights are integers (120 and 42 at creation, the
  result of \<open>Math.round\<close> afterwards). Pointer coordinates, and hence positions and requested
  totals, may be fractional and are rationals. The source computes with IEEE doubles; the
  model computes exactly. The field \<open>value\<close> is called \<open>cellValue\<close>, and \<open>id\<close>, \<open>x\<close>, \<open>y\<close>
  are called \<open>tableId\<close>, \<open>posX\<close>, \<open>posY\<close>.
\<close>

record TableCell =
  cellValue :: string
  rowSpan :: nat
  colSpan :: nat
  hidden :: bool

record TableData =
  tableId :: string
  posX :: rat
  posY :: rat
  colWidths :: "int list"
  rowHeights :: "int list"
  cells :: "TableCell list list"

record TableSelection =
  startRow :: nat
  startCol :: nat
  endRow :: nat
  endCol :: nat

definition createCell :: TableCell where
  "createCell = \<lparr>cellValue = [], rowSpan = 1, colSpan = 1, hidden = False\<rparr>"

text \<open>\<open>createTable\<close>; the identifier comes from \<open>makeId\<close> and is a parameter here.\<close>

definition createTable :: "string \<Rightarrow> TableData" where
  "createTable newId =
     \<lparr>tableId = newId, posX = 120, posY = 120,
      colWidths = replicate 4 120, rowHeights = replicate 4 42,
      cells = replicate 4 (replicate 4 createCell)\<rparr>"

subsection \<open>Reading and writing cells\<close>

text \<open>Whether \<open>cells[r][c]\<close> exists.\<close>

definition inGrid :: "'a list list \<Rightarrow> nat \<Rightarrow> nat \<Rightarrow> bool" where
  "inGrid cs r c \<longleftrightarrow> r < length cs \<and> c < length (cs ! r)"

text \<open>
  \<open>cells[r][c]\<close> followed by a field access: a \<open>TypeError\<close> (here \<open>None\<close>) when row \<open>r\<close> or
  the cell does not exist.
\<close>

definition cellAt :: "TableCell list list \<Rightarrow> nat \<Rightarrow> nat \<Rightarrow> TableCell option" where
  "cellAt cs r c = (if inGrid cs r c then Some (cs ! r ! c) else None)"

text \<open>Assignments to fields of \<open>next.cells[r][c]\<close>, on the cloned grid.\<close>

definition modifyCell ::
  "nat \<Rightarrow> nat \<Rightarrow> (TableCell \<Rightarrow> TableCell) \<Rightarrow> TableCell list list \<Rightarrow> TableCell list list option" where
  "modifyCell r c f cs =
     (if inGrid cs r c then Some (cs[r := (cs ! r)[c := f (cs ! r ! c)]]) else None)"

text \<open>
  The coordinates visited by \<open>for (r = r0; r < r1; r += 1) for (c = c0; c < c1; c += 1)\<close>,
  in the order of the visit.
\<close>

definition rectCoords :: "nat \<Rightarrow> nat \<Rightarrow> nat \<Rightarrow> nat \<Rightarrow> (nat \<times> nat) list" where
  "rectCoords r0 r1 c0 c1 = List.product [r0..<r1] [c0..<c1]"

text \<open>A loop whose body may throw: the first failure ends it.\<close>

fun forEachCoord ::
  "(nat \<times> nat \<Rightarrow> 's \<Rightarrow> 's option) \<Rightarrow> (nat \<times> nat) list \<Rightarrow> 's \<Rightarrow> 's option" where
  "forEachCoord body [] s = Some s"
| "forEachCoord body (p # ps) s =
     (case body p s of None \<Rightarrow> None | Some s' \<Rightarrow> forEachCoord body ps s')"

section \<open>Geometry: move and resize\<close>

definition tableWidth :: "TableData \<Rightarrow> int" where
  "tableWidth table = foldl (\<lambda>acc cur. acc + cur) 0 (colWidths table)"

definition tableHeight :: "TableData \<Rightarrow> int" where
  "tableHeight table = foldl (\<lambda>acc cur. acc + cur) 0 (rowHeights table)"

definition moveTable :: "TableData \<Rightarrow> rat \<Rightarrow> rat \<Rightarrow> TableData" where
  "moveTable table leftPos topPos = table\<lparr>posX := max 0 leftPos, posY := max 0 topPos\<rparr>"

text \<open>\<open>Math.round\<close>: the nearest integer, halves towards plus infinity.\<close>

definition jsRound :: "rat \<Rightarrow> int" where
  "jsRound q = \<lfloor>q + 1 / 2\<rfloor>"

text \<open>
  \<open>resizeTable\<close>. When a total is zero although the list has entries, the source divides by
  zero and stores \<open>NaN\<close> or \<open>Infinity\<close>; the model has no such numbers and answers \<open>None\<close>
  there. Tables with positive widths and heights never reach that branch.
\<close>

definition resizeTable :: "TableData \<Rightarrow> rat \<Rightarrow> rat \<Rightarrow> TableData option" where
  "resizeTable table nextWidth nextHeight =
     (let safeWidth = max 240 nextWidth;
          safeHeight = max 120 nextHeight
      in if (tableWidth table = 0 \<and> colWidths table \<noteq> [])
            \<or> (tableHeight table = 0 \<and> rowHeights table \<noteq> [])
         then None
         else
           let widthRatio = safeWidth / of_int (tableWidth table);
               heightRatio = safeHeight / of_int (tableHeight table)
           in Some (table
                \<lparr>colWidths := map (\<lambda>w. max 80 (jsRound (of_int w * widthRatio))) (colWidths table),
                 rowHeights := map (\<lambda>h. max 34 (jsRound (of_int h * heightRatio))) (rowHeights table)\<rparr>))"

section \<open>Cell edit, merge and split\<close>

definition setCellValue :: "TableData \<Rightarrow> nat \<Rightarrow> nat \<Rightarrow> string \<Rightarrow> TableData option" where
  "setCellValue table row col v =
     do { cs \<leftarrow> modifyCell row col (\<lambda>cell. cell\<lparr>cellValue := v\<rparr>) (cells table);
          Some (table\<lparr>cells := cs\<rparr>) }"

text \<open>
  The first loop of \<open>mergeSelected\<close>: \<open>Some True\<close> when it returns at a hidden cell,
  \<open>Some False\<close> when it runs to its end, \<open>None\<close> when it throws first.
\<close>

fun anyHidden :: "TableCell list list \<Rightarrow> (nat \<times> nat) list \<Rightarrow> bool option" where
  "anyHidden cs [] = Some False"
| "anyHidden cs ((r, c) # ps) =
     (case cellAt cs r c of
        None \<Rightarrow> None
      | Some cell \<Rightarrow> if hidden cell then Some True else anyHidden cs ps)"

text \<open>The body of its second loop, for the rectangle whose top-left cell is \<open>(minRow, minCol)\<close>.\<close>

definition hideCell ::
  "nat \<Rightarrow> nat \<Rightarrow> nat \<times> nat \<Rightarrow> TableCell list list \<Rightarrow> TableCell list list option" where
  "hideCell minRow minCol = (\<lambda>(r, c) cs.
     if r = minRow \<and> c = minCol then Some cs
     else modifyCell r c (\<lambda>cell. cell\<lparr>hidden := True\<rparr>) cs)"

definition mergeSelected :: "TableData \<Rightarrow> TableSelection option \<Rightarrow> TableData option" where
  "mergeSelected table selection =
     (case selection of
        None \<Rightarrow> Some table
      | Some sel \<Rightarrow>
          let minRow = min (startRow sel) (endRow sel);
              maxRow = max (startRow sel) (endRow sel);
              minCol = min (startCol sel) (endCol sel);
              maxCol = max (startCol sel) (endCol sel)
          in if minRow = maxRow \<and> minCol = maxCol then Some table
             else
               (case anyHidden (cells table) (rectCoords minRow (Suc maxRow) minCol (Suc maxCol)) of
                  None \<Rightarrow> None
                | Some True \<Rightarrow> Some table
                | Some False \<Rightarrow>
                    do { cs1 \<leftarrow> modifyCell minRow minCol
                                 (\<lambda>cell. cell\<lparr>rowSpan := maxRow - minRow + 1,
                                               colSpan := maxCol - minCol + 1\<rparr>) (cells table);
                         cs2 \<leftarrow> forEachCoord (hideCell minRow minCol)
                                 (rectCoords minRow (Suc maxRow) minCol (Suc maxCol)) cs1;
                         Some (table\<lparr>cells := cs2\<rparr>) }))"

text \<open>The body of the loop of \<open>splitSelected\<close>.\<close>

definition unmergeCell :: "nat \<times> nat \<Rightarrow> TableCell list list \<Rightarrow> TableCell list list option" where
  "unmergeCell = (\<lambda>(r, c).
     modifyCell r c (\<lambda>cell. cell\<lparr>hidden := False, rowSpan := 1, colSpan := 1\<rparr>))"

definition splitSelected :: "TableData \<Rightarrow> TableSelection option \<Rightarrow> TableData option" where
  "splitSelected table selection =
     (case selection of
        None \<Rightarrow> Some table
      | Some sel \<Rightarrow>
          let row = startRow sel; col = startCol sel
          in (case cellAt (cells table) row col of
                None \<Rightarrow> None
              | Some rootCell \<Rightarrow>
                  if rowSpan rootCell = 1 \<and> colSpan rootCell = 1 then Some table
                  else
                    do { cs \<leftarrow> forEachCoord unmergeCell
                                 (rectCoords row (row + rowSpan rootCell) col (col + colSpan rootCell))
                                 (cells table);
                         Some (table\<lparr>cells := cs\<rparr>) }))"

section \<open>Rows and columns\<close>

definition addRow :: "TableData \<Rightarrow> TableData" where
  "addRow table =
     table\<lparr>cells := cells table @ [replicate (length (colWidths table)) createCell],
           rowHeights := rowHeights table @ [42]\<rparr>"

definition addCol :: "TableData \<Rightarrow> TableData" where
  "addCol table =
     table\<lparr>cells := map (\<lambda>row. row @ [createCell]) (cells table),
           colWidths := colWidths table @ [120]\<rparr>"

definition removeRow :: "TableData \<Rightarrow> TableData" where
  "removeRow table =
     (if length (cells table) \<le> 1 then table
      else table\<lparr>cells := butlast (cells table), rowHeights := butlast (rowHeights table)\<rparr>)"

definition removeCol :: "TableData \<Rightarrow> TableData" where
  "removeCol table =
     (if length (colWidths table) \<le> 1 then table
      else table\<lparr>cells := map butlast (cells table), colWidths := butlast (colWidths table)\<rparr>)"

section \<open>Clipboard\<close>

text \<open>
  \<open>String.prototype.split\<close> and \<open>Array.prototype.join\<close> for a one-character separator.
  Strings are lists of bytes here; tab and newline are single bytes that occur in no other
  character's encoding, so splitting at them cuts at the same places as in the source.
\<close>

fun splitOn :: "char \<Rightarrow> string \<Rightarrow> string list" where
  "splitOn sep [] = [[]]"
| "splitOn sep (ch # rest) =
     (if ch = sep then [] # splitOn sep rest
      else (ch # hd (splitOn sep rest)) # tl (splitOn sep rest))"

fun joinWith :: "char \<Rightarrow> string list \<Rightarrow> string" where
  "joinWith sep [] = []"
| "joinWith sep [s] = s"
| "joinWith sep (s # t # ts) = s @ sep # joinWith sep (t # ts)"

definition tabChar :: char where
  "tabChar = CHR 0x09"

definition newlineChar :: char where
  "newlineChar = CHR 0x0A"

text \<open>\<open>Array.from({ length: n }, f)\<close> whose callback may throw.\<close>

fun arrayFrom :: "(nat \<Rightarrow> 'a option) \<Rightarrow> nat list \<Rightarrow> 'a list option" where
  "arrayFrom f [] = Some []"
| "arrayFrom f (i # is) =
     (case f i of
        None \<Rightarrow> None
      | Some v \<Rightarrow> (case arrayFrom f is of None \<Rightarrow> None | Some vs \<Rightarrow> Some (v # vs)))"

text \<open>
  \<open>onCopy\<close>: the result is the content of the clipboard afterwards, the third argument
  being its content before. The clipboard itself is taken to accept every write and to
  answer every read; \<open>onPaste\<close> below receives the text that was read.
\<close>

definition onCopy :: "TableData \<Rightarrow> TableSelection option \<Rightarrow> string \<Rightarrow> string option" where
  "onCopy table selection clipboard =
     (case selection of
        None \<Rightarrow> Some clipboard
      | Some sel \<Rightarrow>
          let minRow = min (startRow sel) (endRow sel);
              maxRow = max (startRow sel) (endRow sel);
              minCol = min (startCol sel) (endCol sel);
              maxCol = max (startCol sel) (endCol sel)
          in do { rows \<leftarrow> arrayFrom
                    (\<lambda>rOff. do { vs \<leftarrow> arrayFrom
                                    (\<lambda>cOff. do { cell \<leftarrow> cellAt (cells table) (minRow + rOff) (minCol + cOff);
                                                 Some (if hidden cell then [] else cellValue cell) })
                                    [0..<maxCol - minCol + 1];
                                 Some (joinWith tabChar vs) })
                    [0..<maxRow - minRow + 1];
                  Some (joinWith newlineChar rows) })"

text \<open>
  The body of the inner \<open>forEach\<close> of \<open>onPaste\<close>: the optional chaining \<open>cells[row]?.[col]\<close>
  never throws.
\<close>

definition pasteCell :: "nat \<Rightarrow> nat \<Rightarrow> string \<Rightarrow> TableCell list list \<Rightarrow> TableCell list list" where
  "pasteCell row col v cs =
     (if inGrid cs row col \<and> \<not> hidden (cs ! row ! col)
      then cs[row := (cs ! row)[col := (cs ! row ! col)\<lparr>cellValue := v\<rparr>]]
      else cs)"

fun pasteLine :: "nat \<Rightarrow> nat \<Rightarrow> nat \<Rightarrow> string list \<Rightarrow> TableCell list list \<Rightarrow> TableCell list list" where
  "pasteLine row sCol cOff [] cs = cs"
| "pasteLine row sCol cOff (v # vs) cs = pasteLine row sCol (Suc cOff) vs (pasteCell row (sCol + cOff) v cs)"

fun pasteLines ::
  "nat \<Rightarrow> nat \<Rightarrow> nat \<Rightarrow> string list list \<Rightarrow> TableCell list list \<Rightarrow> TableCell list list" where
  "pasteLines sRow sCol rOff [] cs = cs"
| "pasteLines sRow sCol rOff (line # rest) cs =
     pasteLines sRow sCol (Suc rOff) rest (pasteLine (sRow + rOff) sCol 0 line cs)"

definition onPaste :: "TableData \<Rightarrow> TableSelection option \<Rightarrow> string \<Rightarrow> TableData" where
  "onPaste table selection pasted =
     (case selection of
        None \<Rightarrow> table
      | Some sel \<Rightarrow>
          if pasted = [] then table
          else
            let lines = map (splitOn tabChar) (splitOn newlineChar pasted)
            in table\<lparr>cells := pasteLines (startRow sel) (startCol sel) 0 lines (cells table)\<rparr>)"

section \<open>Predicates and reference definitions used by the properties\<close>

text \<open>
  Grid rectangularity: as many rows of cells as row heights, and every row as long as the
  list of column widths.
\<close>

definition rectangular :: "TableData \<Rightarrow> bool" where
  "rectangular table \<longleftrightarrow>
     length (cells table) = length (rowHeights table)
     \<and> list_all (\<lambda>row. length row = length (colWidths table)) (cells table)"

text \<open>The table that most examples below start from: the 4 by 4 table of \<open>createTable\<close>.\<close>

definition sampleTable :: TableData where
  "sampleTable = createTable ''t''"

definition sampleSelection :: TableSelection where
  "sampleSelection = \<lparr>startRow = 0, startCol = 0, endRow = 1, endCol = 1\<rparr>"

text \<open>Exchanging the start and end corners of a selection, and its normalized rectangle.\<close>

definition swapCorners :: "TableSelection \<Rightarrow> TableSelection" where
  "swapCorners sel =
     \<lparr>startRow = endRow sel, startCol = endCol sel, endRow = startRow sel, endCol = startCol sel\<rparr>"

definition normalized :: "TableSelection \<Rightarrow> nat \<times> nat \<times> nat \<times> nat" where
  "normalized sel =
     (min (startRow sel) (endRow sel), max (startRow sel) (endRow sel),
      min (startCol sel) (endCol sel), max (startCol sel) (endCol sel))"


text \<open>
  The cells of the normalized rectangle of a selection, in the order in which the loops of
  \<open>mergeSelected\<close> visit them; whether a list of coordinates lies within a grid; whether a
  selection is a single cell; whether one of the listed cells is hidden.
\<close>

definition selectedCoords :: "TableSelection \<Rightarrow> (nat \<times> nat) list" where
  "selectedCoords sel =
     rectCoords (min (startRow sel) (endRow sel)) (Suc (max (startRow sel) (endRow sel)))
       (min (startCol sel) (endCol sel)) (Suc (max (startCol sel) (endCol sel)))"

definition coordsInGrid :: "'a list list \<Rightarrow> (nat \<times> nat) list \<Rightarrow> bool" where
  "coordsInGrid cs ps \<longleftrightarrow> list_all (\<lambda>(r, c). inGrid cs r c) ps"

definition singleCell :: "TableSelection \<Rightarrow> bool" where
  "singleCell sel \<longleftrightarrow> startRow sel = endRow sel \<and> startCol sel = endCol sel"

definition hiddenAmong :: "TableCell list list \<Rightarrow> (nat \<times> nat) list \<Rightarrow> bool" where
  "hiddenAmong cs ps \<longleftrightarrow> list_ex (\<lambda>(r, c). hidden (cs ! r ! c)) ps"

text \<open>
  The rectangle implied by the spans of a root cell at \<open>(row, col)\<close>, as the loops of
  \<open>splitSelected\<close> visit it; and whether all listed cells are unit cells that are not hidden.
\<close>

definition regionCoords :: "TableCell \<Rightarrow> nat \<Rightarrow> nat \<Rightarrow> (nat \<times> nat) list" where
  "regionCoords rootCell row col =
     rectCoords row (row + rowSpan rootCell) col (col + colSpan rootCell)"

definition unitCells :: "TableCell list list \<Rightarrow> (nat \<times> nat) list \<Rightarrow> bool" where
  "unitCells cs ps \<longleftrightarrow>
     list_all (\<lambda>(r, c). rowSpan (cs ! r ! c) = 1 \<and> colSpan (cs ! r ! c) = 1 \<and> \<not> hidden (cs ! r ! c)) ps"

text \<open>The new table after merging the rectangle from \<open>(0, 0)\<close> to \<open>(1, 1)\<close>.\<close>

definition mergedSample :: TableData where
  "mergedSample = sampleTable\<lparr>cells :=
     [[createCell\<lparr>rowSpan := 2, colSpan := 2\<rparr>, createCell\<lparr>hidden := True\<rparr>, createCell, createCell],
      [createCell\<lparr>hidden := True\<rparr>, createCell\<lparr>hidden := True\<rparr>, createCell, createCell],
      [createCell, createCell, createCell, createCell],
      [createCell, createCell, createCell, createCell]]\<rparr>"

text \<open>
  The text that copy is to produce, written from its description: for each row of the
  normalized rectangle in order, the values of its cells, the empty string standing for a
  hidden cell, joined by tabs; the rows joined by newlines.
\<close>

definition shownText :: "TableCell \<Rightarrow> string" where
  "shownText cell = (if hidden cell then [] else cellValue cell)"


text \<open>
  Whether all listed cells are non-hidden and hold values without tab and newline
  characters.
\<close>

definition plainCells :: "TableCell list list \<Rightarrow> (nat \<times> nat) list \<Rightarrow> bool" where
  "plainCells cs ps \<longleftrightarrow>
     list_all (\<lambda>(r, c). \<not> hidden (cs ! r ! c)
        \<and> tabChar \<notin> set (cellValue (cs ! r ! c))
        \<and> newlineChar \<notin> set (cellValue (cs ! r ! c))) ps"

text \<open>Tables and selections for the examples.\<close>

definition lettersTable :: TableData where
  "lettersTable = sampleTable\<lparr>cells :=
     [[createCell\<lparr>cellValue := ''A''\<rparr>, createCell\<lparr>cellValue := ''B''\<rparr>, createCell, createCell],
      [createCell, createCell, createCell, createCell],
      [createCell, createCell, createCell, createCell],
      [createCell, createCell, createCell, createCell]]\<rparr>"

definition cornerSelection :: TableSelection where
  "cornerSelection = \<lparr>startRow = 3, startCol = 3, endRow = 3, endCol = 3\<rparr>"


definition multilineTable :: TableData where
  "multilineTable = sampleTable\<lparr>cells :=
     [[createCell\<lparr>cellValue := [CHR ''a'', newlineChar, CHR ''b'']\<rparr>, createCell, createCell, createCell],
      [createCell, createCell, createCell, createCell],
      [createCell, createCell, createCell, createCell],
      [createCell, createCell, createCell, createCell]]\<rparr>"

section \<open>Properties\<close>

subsection \<open>The shape of the grid\<close>

lemma inGrid_shape: "map length cs' = map length cs \<Longrightarrow> inGrid cs' r c = inGrid cs r c"
  unfolding inGrid_def by (metis length_map nth_map)

lemma modifyCell_shape: "modifyCell r c f cs = Some cs' \<Longrightarrow> map length cs' = map length cs"
  by (auto simp: modifyCell_def inGrid_def map_update list_update_same_conv split: if_splits)

lemma hideCell_shape: "hideCell r0 c0 p cs = Some cs' \<Longrightarrow> map length cs' = map length cs"
  by (auto simp: hideCell_def split: prod.splits if_splits dest: modifyCell_shape)

lemma unmergeCell_shape: "unmergeCell p cs = Some cs' \<Longrightarrow> map length cs' = map length cs"
  by (auto simp: unmergeCell_def split: prod.splits dest: modifyCell_shape)

lemma forEachCoord_shape:
  assumes "\<And>p s s'. body p s = Some s' \<Longrightarrow> map length s' = map length s"
  shows "forEachCoord body ps cs = Some cs' \<Longrightarrow> map length cs' = map length cs"
proof (induction ps arbitrary: cs)
  case Nil
  then show ?case by simp
next
  case (Cons p ps)
  then obtain cs1 where b: "body p cs = Some cs1" and r: "forEachCoord body ps cs1 = Some cs'"
    by (auto split: option.splits)
  from Cons.IH [OF r] assms [OF b] show ?case by simp
qed

lemma forEach_hideCell_shape:
  "forEachCoord (hideCell r0 c0) ps cs = Some cs' \<Longrightarrow> map length cs' = map length cs"
  by (rule forEachCoord_shape [where body = "hideCell r0 c0"]) (rule hideCell_shape)

lemma forEach_unmergeCell_shape:
  "forEachCoord unmergeCell ps cs = Some cs' \<Longrightarrow> map length cs' = map length cs"
  by (rule forEachCoord_shape [where body = unmergeCell]) (rule unmergeCell_shape)

lemma pasteCell_shape: "map length (pasteCell row col v cs) = map length cs"
  by (auto simp: pasteCell_def inGrid_def map_update list_update_same_conv)

lemma pasteLine_shape: "map length (pasteLine row sCol cOff vs cs) = map length cs"
  by (induction vs arbitrary: cOff cs) (simp_all add: pasteCell_shape)

lemma pasteLines_shape: "map length (pasteLines sRow sCol rOff ls cs) = map length cs"
  by (induction ls arbitrary: rOff cs) (simp_all add: pasteLine_shape)

lemma mergeSelected_shape:
  assumes "mergeSelected t sel = Some t'"
  shows "map length (cells t') = map length (cells t) \<and> rowHeights t' = rowHeights t
     \<and> colWidths t' = colWidths t"
  using assms
  by (auto simp: mergeSelected_def Let_def
      split: if_splits option.splits bool.splits bind_splits
      dest!: modifyCell_shape forEach_hideCell_shape)

lemma splitSelected_shape:
  assumes "splitSelected t sel = Some t'"
  shows "map length (cells t') = map length (cells t) \<and> rowHeights t' = rowHeights t
     \<and> colWidths t' = colWidths t"
  using assms
  by (auto simp: splitSelected_def Let_def split: if_splits option.splits bind_splits
      dest!: forEach_unmergeCell_shape)

lemma onPaste_shape:
  "map length (cells (onPaste t sel pasted)) = map length (cells t)
     \<and> rowHeights (onPaste t sel pasted) = rowHeights t \<and> colWidths (onPaste t sel pasted) = colWidths t"
  by (simp add: onPaste_def pasteLines_shape Let_def split: option.splits)

lemma setCellValue_shape:
  "setCellValue t r c v = Some t' \<Longrightarrow>
     map length (cells t') = map length (cells t) \<and> rowHeights t' = rowHeights t
     \<and> colWidths t' = colWidths t"
  by (auto simp: setCellValue_def dest: modifyCell_shape split: bind_splits)

lemma resizeTable_shape:
  "resizeTable t nw nh = Some t' \<Longrightarrow>
     cells t' = cells t \<and> length (rowHeights t') = length (rowHeights t)
     \<and> length (colWidths t') = length (colWidths t)"
  by (auto simp: resizeTable_def Let_def split: if_splits)

subsection \<open>Rectangularity\<close>

lemma rectangular_shape:
  "rectangular t \<longleftrightarrow> length (map length (cells t)) = length (rowHeights t)
     \<and> (\<forall>n \<in> set (map length (cells t)). n = length (colWidths t))"
  by (simp add: rectangular_def list_all_iff)

lemma rectangular_cong:
  assumes "rectangular t"
    and "map length (cells t') = map length (cells t)"
    and "length (rowHeights t') = length (rowHeights t)"
    and "length (colWidths t') = length (colWidths t)"
  shows "rectangular t'"
  using assms unfolding rectangular_shape by simp

lemma rectangular_addRow: "rectangular t \<Longrightarrow> rectangular (addRow t)"
  by (simp add: rectangular_def addRow_def list_all_iff)

lemma rectangular_addCol: "rectangular t \<Longrightarrow> rectangular (addCol t)"
  by (simp add: rectangular_def addCol_def list_all_iff)

lemma rectangular_removeRow: "rectangular t \<Longrightarrow> rectangular (removeRow t)"
  by (auto simp: rectangular_def removeRow_def list_all_iff dest: in_set_butlastD)

lemma rectangular_removeCol: "rectangular t \<Longrightarrow> rectangular (removeCol t)"
  by (auto simp: rectangular_def removeCol_def list_all_iff)

text \<open>
  Claim C9. Every table operation keeps the grid rectangular: if the table is rectangular
  before \<open>addRow\<close>, \<open>addCol\<close>, \<open>removeRow\<close>, \<open>removeCol\<close>, merge, split, paste, a cell edit or
  a resize, then the table handed to the owner is rectangular as well (a handler that
  throws hands over nothing).
\<close>

theorem operations_preserve_rectangularity:
  assumes "rectangular t"
  shows "rectangular (addRow t) \<and> rectangular (addCol t)
     \<and> rectangular (removeRow t) \<and> rectangular (removeCol t)
     \<and> (\<forall>t'. mergeSelected t sel = Some t' \<longrightarrow> rectangular t')
     \<and> (\<forall>t'. splitSelected t sel = Some t' \<longrightarrow> rectangular t')
     \<and> rectangular (onPaste t sel pasted)
     \<and> (\<forall>t'. setCellValue t r c v = Some t' \<longrightarrow> rectangular t')
     \<and> (\<forall>t'. resizeTable t nw nh = Some t' \<longrightarrow> rectangular t')"
proof -
  have "\<forall>t'. mergeSelected t sel = Some t' \<longrightarrow> rectangular t'"
    using mergeSelected_shape rectangular_cong [OF assms] by simp
  moreover have "\<forall>t'. splitSelected t sel = Some t' \<longrightarrow> rectangular t'"
    using splitSelected_shape rectangular_cong [OF assms] by simp
  moreover have "rectangular (onPaste t sel pasted)"
    using onPaste_shape [of t sel pasted] rectangular_cong [OF assms] by simp
  moreover have "\<forall>t'. setCellValue t r c v = Some t' \<longrightarrow> rectangular t'"
    using setCellValue_shape rectangular_cong [OF assms] by simp
  moreover have "\<forall>t'. resizeTable t nw nh = Some t' \<longrightarrow> rectangular t'"
    using resizeTable_shape rectangular_cong [OF assms] by simp
  ultimately show ?thesis
    using assms
    by (simp add: rectangular_addRow rectangular_addCol rectangular_removeRow
        rectangular_removeCol)
qed

theorem operations_preserve_rectangularity_witness:
  "rectangular sampleTable
   \<and> rectangular (addRow sampleTable) \<and> rectangular (addCol sampleTable)
   \<and> rectangular (removeRow sampleTable) \<and> rectangular (removeCol sampleTable)
   \<and> mergeSelected sampleTable (Some sampleSelection) \<noteq> None
   \<and> rectangular (the (mergeSelected sampleTable (Some sampleSelection)))
   \<and> splitSelected sampleTable (Some sampleSelection) \<noteq> None
   \<and> rectangular (the (splitSelected sampleTable (Some sampleSelection)))
   \<and> rectangular (onPaste sampleTable (Some sampleSelection) ''ab'')
   \<and> setCellValue sampleTable 1 2 ''ab'' \<noteq> None
   \<and> rectangular (the (setCellValue sampleTable 1 2 ''ab''))
   \<and> resizeTable sampleTable 600 210 \<noteq> None
   \<and> rectangular (the (resizeTable sampleTable 600 210))"
proof -
  have r: "rectangular sampleTable"
    by code_simp
  have m: "mergeSelected sampleTable (Some sampleSelection) \<noteq> None"
    by code_simp
  have s: "splitSelected sampleTable (Some sampleSelection) \<noteq> None"
    by code_simp
  have e: "setCellValue sampleTable 1 2 ''ab'' \<noteq> None"
    by code_simp
  have z: "resizeTable sampleTable 600 210 \<noteq> None"
    by code_simp
  from r m s e z
    operations_preserve_rectangularity [OF r, of "Some sampleSelection" "''ab''" 1 2 "''ab''" 600 210]
  show ?thesis
    by auto
qed

text \<open>
  Claim C10. The geometry operations never touch grid content. A resize changes only
  \<open>colWidths\<close> and \<open>rowHeights\<close>: the identifier, the position and all cells are those of the
  table before. A drag-move changes only the position, and both coordinates are clamped to
  be at least 0.
\<close>

theorem geometry_operations_frame:
  "(\<forall>t'. resizeTable t nw nh = Some t' \<longrightarrow>
      t' = t\<lparr>colWidths := colWidths t', rowHeights := rowHeights t'\<rparr>)
   \<and> moveTable t l tp = t\<lparr>posX := max 0 l, posY := max 0 tp\<rparr>
   \<and> 0 \<le> posX (moveTable t l tp) \<and> 0 \<le> posY (moveTable t l tp)"
  by (auto simp: resizeTable_def moveTable_def Let_def split: if_splits)

theorem geometry_operations_frame_witness:
  "resizeTable sampleTable 600 210 = Some (sampleTable\<lparr>colWidths := [150, 150, 150, 150],
       rowHeights := [53, 53, 53, 53]\<rparr>)
   \<and> moveTable sampleTable (- 5) 7 = sampleTable\<lparr>posX := 0, posY := 7\<rparr>"
proof -
  have z: "resizeTable sampleTable 600 210 = Some (sampleTable\<lparr>colWidths := [150, 150, 150, 150],
       rowHeights := [53, 53, 53, 53]\<rparr>)"
    by code_simp
  from z geometry_operations_frame [of sampleTable 600 210 "- 5" 7]
  show ?thesis
    by simp
qed









text \<open>
  Claim C4, as amended. Merge and copy depend only on the normalized rectangle of the
  selection, so they give the same result when the start and end corners are exchanged.
  Paste does not normalize: it anchors at the start corner, and its result depends on the
  start corner only.
\<close>

theorem corner_order:
  "(normalized sel' = normalized sel \<longrightarrow>
      mergeSelected t (Some sel') = mergeSelected t (Some sel)
      \<and> onCopy t (Some sel') clip = onCopy t (Some sel) clip)
   \<and> normalized (swapCorners sel) = normalized sel
   \<and> (startRow sel' = startRow sel \<and> startCol sel' = startCol sel \<longrightarrow>
        onPaste t (Some sel') pasted = onPaste t (Some sel) pasted)"
  by (simp add: normalized_def swapCorners_def mergeSelected_def onCopy_def onPaste_def
      min.commute max.commute)

theorem corner_order_witness:
  "mergeSelected sampleTable (Some (swapCorners sampleSelection))
     = mergeSelected sampleTable (Some sampleSelection)
   \<and> onCopy sampleTable (Some (swapCorners sampleSelection)) ''x''
     = onCopy sampleTable (Some sampleSelection) ''x''
   \<and> onPaste sampleTable (Some (sampleSelection\<lparr>endRow := 3\<rparr>)) ''A''
     = onPaste sampleTable (Some sampleSelection) ''A''"
proof -
  have n: "normalized (swapCorners sampleSelection) = normalized sampleSelection"
    by code_simp
  have s: "startRow (sampleSelection\<lparr>endRow := 3\<rparr>) = startRow sampleSelection
      \<and> startCol (sampleSelection\<lparr>endRow := 3\<rparr>) = startCol sampleSelection"
    by simp
  from n s
    corner_order [of "swapCorners sampleSelection" sampleSelection sampleTable "''x''"]
    corner_order [of "sampleSelection\<lparr>endRow := 3\<rparr>" sampleSelection sampleTable _ "''A''"]
  show ?thesis by simp
qed

text \<open>
  The claim as stated fails for paste: with the corners exchanged the text lands at the
  other corner.
\<close>

theorem paste_corner_order_counterexample:
  "cellValue (cells (onPaste sampleTable (Some sampleSelection) ''A'') ! 0 ! 0) = ''A''
   \<and> cellValue (cells (onPaste sampleTable (Some (swapCorners sampleSelection)) ''A'') ! 0 ! 0) = ''''
   \<and> cellValue (cells (onPaste sampleTable (Some (swapCorners sampleSelection)) ''A'') ! 1 ! 1) = ''A''"
  by code_simp

subsection \<open>Cells after a loop of writes\<close>

lemma coordsInGrid_shape:
  "map length cs' = map length cs \<Longrightarrow> coordsInGrid cs' ps = coordsInGrid cs ps"
proof -
  assume "map length cs' = map length cs"
  then have "\<And>r c. inGrid cs' r c = inGrid cs r c"
    by (rule inGrid_shape)
  then show ?thesis
    by (simp add: coordsInGrid_def)
qed

lemma grid_update_nth:
  "inGrid cs r c \<Longrightarrow> inGrid cs r' c' \<Longrightarrow>
     cs[r := (cs ! r)[c := v]] ! r' ! c' = (if r' = r \<and> c' = c then v else cs ! r' ! c')"
  by (auto simp: inGrid_def nth_list_update)

lemma shape_length: "map length cs' = map length cs \<Longrightarrow> length cs' = length cs"
  by (drule arg_cong [where f = length]) simp

lemma shape_row_length:
  "map length cs' = map length cs \<Longrightarrow> r < length cs \<Longrightarrow> length (cs' ! r) = length (cs ! r)"
  by (frule shape_length, drule arg_cong [where f = "\<lambda>ls. ls ! r"]) simp

lemma grid_eqI:
  assumes shape: "map length cs' = map length cs"
    and pointwise: "\<And>r c. inGrid cs r c \<Longrightarrow> cs' ! r ! c = cs ! r ! c"
  shows "cs' = cs"
proof (rule nth_equalityI)
  show len: "length cs' = length cs"
    using shape by (rule shape_length)
  fix r assume "r < length cs'"
  with len have r: "r < length cs" by simp
  show "cs' ! r = cs ! r"
  proof (rule nth_equalityI)
    show rl: "length (cs' ! r) = length (cs ! r)"
      using shape r by (rule shape_row_length)
    fix c assume "c < length (cs' ! r)"
    with r rl have "inGrid cs r c"
      by (simp add: inGrid_def)
    then show "cs' ! r ! c = cs ! r ! c" by (rule pointwise)
  qed
qed

lemma forEachCoord_pointwise:
  assumes body: "\<And>r c s. inGrid s r c \<Longrightarrow> body (r, c) s = modifyCell r c (g r c) s"
  shows "coordsInGrid cs ps \<Longrightarrow> distinct ps \<Longrightarrow>
     \<exists>cs'. forEachCoord body ps cs = Some cs' \<and> map length cs' = map length cs
       \<and> (\<forall>r c. inGrid cs r c \<longrightarrow>
            cs' ! r ! c = (if (r, c) \<in> set ps then g r c (cs ! r ! c) else cs ! r ! c))"
proof (induction ps arbitrary: cs)
  case Nil
  then show ?case by simp
next
  case (Cons p ps)
  obtain r c where p: "p = (r, c)" by (cases p)
  from Cons.prems p have rc: "inGrid cs r c" and rest: "coordsInGrid cs ps"
    and fresh: "(r, c) \<notin> set ps" and dist: "distinct ps"
    by (simp_all add: coordsInGrid_def)
  define cs1 where "cs1 = cs[r := (cs ! r)[c := g r c (cs ! r ! c)]]"
  have step: "body p cs = Some cs1"
    using rc by (simp add: p body modifyCell_def cs1_def)
  have "modifyCell r c (g r c) cs = Some cs1"
    using step rc by (simp add: p body)
  then have shape1: "map length cs1 = map length cs"
    by (rule modifyCell_shape)
  have "coordsInGrid cs1 ps"
    using rest by (simp add: coordsInGrid_shape [OF shape1])
  from Cons.IH [OF this dist] obtain cs' where
    run: "forEachCoord body ps cs1 = Some cs'" and shape': "map length cs' = map length cs1"
    and pwall: "\<forall>r' c'. inGrid cs1 r' c' \<longrightarrow>
            cs' ! r' ! c' = (if (r', c') \<in> set ps then g r' c' (cs1 ! r' ! c') else cs1 ! r' ! c')"
    by (elim exE conjE)
  have pw1: "cs' ! r' ! c' = (if (r', c') \<in> set (p # ps) then g r' c' (cs ! r' ! c') else cs ! r' ! c')"
    if g: "inGrid cs r' c'" for r' c'
  proof -
    from g have g1: "inGrid cs1 r' c'" by (simp add: inGrid_shape [OF shape1])
    have at1: "cs1 ! r' ! c' = (if r' = r \<and> c' = c then g r c (cs ! r ! c) else cs ! r' ! c')"
      unfolding cs1_def using rc g by (rule grid_update_nth)
    from pwall g1 have at':
      "cs' ! r' ! c' = (if (r', c') \<in> set ps then g r' c' (cs1 ! r' ! c') else cs1 ! r' ! c')"
      by simp
    show ?thesis
    proof (cases "(r', c') = (r, c)")
      case True
      with fresh at' at1 show ?thesis by (simp add: p)
    next
      case False
      with at' at1 show ?thesis by (auto simp: p)
    qed
  qed
  show ?case
  proof (intro exI conjI allI impI)
    show "forEachCoord body (p # ps) cs = Some cs'"
      using step run by simp
    show "map length cs' = map length cs"
      using shape' shape1 by simp
    fix r' c' assume "inGrid cs r' c'"
    then show "cs' ! r' ! c' = (if (r', c') \<in> set (p # ps) then g r' c' (cs ! r' ! c') else cs ! r' ! c')"
      by (rule pw1)
  qed
qed

lemma rectCoords_member:
  "(r, c) \<in> set (rectCoords r0 r1 c0 c1) \<longleftrightarrow> r0 \<le> r \<and> r < r1 \<and> c0 \<le> c \<and> c < c1"
  by (auto simp: rectCoords_def)

lemma rectCoords_distinct: "distinct (rectCoords r0 r1 c0 c1)"
  by (simp add: rectCoords_def distinct_product)

lemma selectedCoords_member:
  "(r, c) \<in> set (selectedCoords sel) \<longleftrightarrow>
     min (startRow sel) (endRow sel) \<le> r \<and> r \<le> max (startRow sel) (endRow sel)
     \<and> min (startCol sel) (endCol sel) \<le> c \<and> c \<le> max (startCol sel) (endCol sel)"
  by (auto simp: selectedCoords_def rectCoords_member)

lemma anyHidden_inGrid:
  "coordsInGrid cs ps \<Longrightarrow> anyHidden cs ps = Some (hiddenAmong cs ps)"
  by (induction ps) (auto simp: coordsInGrid_def hiddenAmong_def cellAt_def)

lemma hideCell_modify:
  "inGrid s r c \<Longrightarrow>
     hideCell r0 c0 (r, c) s
       = modifyCell r c (\<lambda>cell. if r = r0 \<and> c = c0 then cell else cell\<lparr>hidden := True\<rparr>) s"
  by (simp add: hideCell_def modifyCell_def)

lemma unmergeCell_modify:
  "unmergeCell (r, c) s
     = modifyCell r c (\<lambda>cell. cell\<lparr>hidden := False, rowSpan := 1, colSpan := 1\<rparr>) s"
  by (simp add: unmergeCell_def)

subsection \<open>Merge and split\<close>

lemma min_eq_max_iff: "min a b = max a b \<longleftrightarrow> a = b" for a b :: nat
  by (auto simp: min_def max_def)

lemma coordsInGrid_member: "coordsInGrid cs ps \<Longrightarrow> (r, c) \<in> set ps \<Longrightarrow> inGrid cs r c"
  by (auto simp: coordsInGrid_def list_all_iff)

lemma hiddenAmong_iff:
  "hiddenAmong cs ps \<longleftrightarrow> (\<exists>(r, c) \<in> set ps. hidden (cs ! r ! c))"
  by (simp add: hiddenAmong_def list_ex_iff)

lemma merge_noop:
  assumes "coordsInGrid (cells t) (selectedCoords sel)"
    and "singleCell sel \<or> hiddenAmong (cells t) (selectedCoords sel)"
  shows "mergeSelected t (Some sel) = Some t"
  using assms anyHidden_inGrid [OF assms(1)]
  by (auto simp: mergeSelected_def Let_def singleCell_def min_eq_max_iff
      selectedCoords_def [symmetric])

lemma merge_proper:
  assumes inb: "coordsInGrid (cells t) (selectedCoords sel)"
    and multi: "\<not> singleCell sel"
    and visible: "\<not> hiddenAmong (cells t) (selectedCoords sel)"
  shows "\<exists>t'. mergeSelected t (Some sel) = Some t' \<and> t' = t\<lparr>cells := cells t'\<rparr>
     \<and> map length (cells t') = map length (cells t)
     \<and> (\<forall>r c. inGrid (cells t) r c \<longrightarrow>
          cells t' ! r ! c =
            (if r = min (startRow sel) (endRow sel) \<and> c = min (startCol sel) (endCol sel)
             then (cells t ! r ! c)
                    \<lparr>rowSpan := max (startRow sel) (endRow sel) - min (startRow sel) (endRow sel) + 1,
                     colSpan := max (startCol sel) (endCol sel) - min (startCol sel) (endCol sel) + 1\<rparr>
             else if (r, c) \<in> set (selectedCoords sel) then (cells t ! r ! c)\<lparr>hidden := True\<rparr>
             else cells t ! r ! c))"
proof -
  define minRow where "minRow = min (startRow sel) (endRow sel)"
  define maxRow where "maxRow = max (startRow sel) (endRow sel)"
  define minCol where "minCol = min (startCol sel) (endCol sel)"
  define maxCol where "maxCol = max (startCol sel) (endCol sel)"
  define ps where "ps = rectCoords minRow (Suc maxRow) minCol (Suc maxCol)"
  define spans where
    "spans = (\<lambda>cell :: TableCell. cell\<lparr>rowSpan := maxRow - minRow + 1, colSpan := maxCol - minCol + 1\<rparr>)"
  define hide where
    "hide = (\<lambda>(r :: nat) (c :: nat) (cell :: TableCell).
       if r = minRow \<and> c = minCol then cell else cell\<lparr>hidden := True\<rparr>)"
  have ps: "ps = selectedCoords sel"
    by (simp add: ps_def selectedCoords_def minRow_def maxRow_def minCol_def maxCol_def)
  have corner: "(minRow, minCol) \<in> set ps"
    by (auto simp: ps_def rectCoords_member minRow_def maxRow_def minCol_def maxCol_def)
  have c0: "inGrid (cells t) minRow minCol"
    using inb corner unfolding ps [symmetric] by (rule coordsInGrid_member)
  have notsingle: "\<not> (minRow = maxRow \<and> minCol = maxCol)"
    using multi by (simp add: singleCell_def minRow_def maxRow_def minCol_def maxCol_def min_eq_max_iff)
  have scan: "anyHidden (cells t) ps = Some False"
    using anyHidden_inGrid [OF inb] visible by (simp add: ps)
  define cs1 where "cs1 = (cells t)[minRow := (cells t ! minRow)[minCol := spans (cells t ! minRow ! minCol)]]"
  have m1: "modifyCell minRow minCol spans (cells t) = Some cs1"
    using c0 by (simp add: modifyCell_def cs1_def)
  have shape1: "map length cs1 = map length (cells t)"
    using m1 by (rule modifyCell_shape)
  have inb1: "coordsInGrid cs1 ps"
    using inb by (simp add: coordsInGrid_shape [OF shape1] ps)
  have "\<exists>cs2. forEachCoord (hideCell minRow minCol) ps cs1 = Some cs2 \<and> map length cs2 = map length cs1
       \<and> (\<forall>r c. inGrid cs1 r c \<longrightarrow>
            cs2 ! r ! c = (if (r, c) \<in> set ps then hide r c (cs1 ! r ! c) else cs1 ! r ! c))"
  proof (rule forEachCoord_pointwise [OF _ inb1])
    show "distinct ps" by (simp add: ps_def rectCoords_distinct)
    show "hideCell minRow minCol (r, c) s = modifyCell r c (hide r c) s" if "inGrid s r c" for r c s
      using that by (simp add: hideCell_modify hide_def)
  qed
  then obtain cs2 where loop: "forEachCoord (hideCell minRow minCol) ps cs1 = Some cs2"
    and shape2: "map length cs2 = map length cs1"
    and pw2: "\<forall>r c. inGrid cs1 r c \<longrightarrow>
            cs2 ! r ! c = (if (r, c) \<in> set ps then hide r c (cs1 ! r ! c) else cs1 ! r ! c)"
    by (elim exE conjE)
  have res: "mergeSelected t (Some sel) = Some (t\<lparr>cells := cs2\<rparr>)"
    using notsingle scan m1 [unfolded spans_def] loop
    by (auto simp: mergeSelected_def Let_def minRow_def [symmetric] maxRow_def [symmetric]
        minCol_def [symmetric] maxCol_def [symmetric] ps_def [symmetric])
  have pw: "cs2 ! r ! c =
            (if r = minRow \<and> c = minCol then spans (cells t ! r ! c)
             else if (r, c) \<in> set ps then (cells t ! r ! c)\<lparr>hidden := True\<rparr>
             else cells t ! r ! c)" if g: "inGrid (cells t) r c" for r c
  proof -
    from g have g1: "inGrid cs1 r c" by (simp add: inGrid_shape [OF shape1])
    have at1: "cs1 ! r ! c = (if r = minRow \<and> c = minCol then spans (cells t ! minRow ! minCol) else cells t ! r ! c)"
      unfolding cs1_def using c0 g by (rule grid_update_nth)
    from pw2 g1 have "cs2 ! r ! c = (if (r, c) \<in> set ps then hide r c (cs1 ! r ! c) else cs1 ! r ! c)"
      by simp
    with at1 corner show ?thesis
      by (auto simp: hide_def)
  qed
  show ?thesis
  proof (intro exI conjI allI impI)
    show "mergeSelected t (Some sel) = Some (t\<lparr>cells := cs2\<rparr>)" by (rule res)
    show "t\<lparr>cells := cs2\<rparr> = t\<lparr>cells := cells (t\<lparr>cells := cs2\<rparr>)\<rparr>" by simp
    show "map length (cells (t\<lparr>cells := cs2\<rparr>)) = map length (cells t)"
      using shape2 shape1 by simp
    fix r c assume "inGrid (cells t) r c"
    from pw [OF this]
    show "cells (t\<lparr>cells := cs2\<rparr>) ! r ! c =
            (if r = min (startRow sel) (endRow sel) \<and> c = min (startCol sel) (endCol sel)
             then (cells t ! r ! c)
                    \<lparr>rowSpan := max (startRow sel) (endRow sel) - min (startRow sel) (endRow sel) + 1,
                     colSpan := max (startCol sel) (endCol sel) - min (startCol sel) (endCol sel) + 1\<rparr>
             else if (r, c) \<in> set (selectedCoords sel) then (cells t ! r ! c)\<lparr>hidden := True\<rparr>
             else cells t ! r ! c)"
      by (simp add: ps spans_def minRow_def maxRow_def minCol_def maxCol_def)
  qed
qed


lemma split_unit:
  assumes "cellAt (cells t) (startRow sel) (startCol sel) = Some rootCell"
    and "rowSpan rootCell = 1 \<and> colSpan rootCell = 1"
  shows "splitSelected t (Some sel) = Some t"
  using assms by (simp add: splitSelected_def)

lemma split_proper:
  assumes root: "cellAt (cells t) (startRow sel) (startCol sel) = Some rootCell"
    and inb: "coordsInGrid (cells t) (regionCoords rootCell (startRow sel) (startCol sel))"
    and merged: "\<not> (rowSpan rootCell = 1 \<and> colSpan rootCell = 1)"
  shows "\<exists>t'. splitSelected t (Some sel) = Some t' \<and> t' = t\<lparr>cells := cells t'\<rparr>
     \<and> map length (cells t') = map length (cells t)
     \<and> (\<forall>r c. inGrid (cells t) r c \<longrightarrow>
          cells t' ! r ! c =
            (if (r, c) \<in> set (regionCoords rootCell (startRow sel) (startCol sel))
             then (cells t ! r ! c)\<lparr>hidden := False, rowSpan := 1, colSpan := 1\<rparr>
             else cells t ! r ! c))"
proof -
  define ps where "ps = regionCoords rootCell (startRow sel) (startCol sel)"
  define unit where
    "unit = (\<lambda>(r :: nat) (c :: nat) (cell :: TableCell). cell\<lparr>hidden := False, rowSpan := 1, colSpan := 1\<rparr>)"
  have "\<exists>cs2. forEachCoord unmergeCell ps (cells t) = Some cs2 \<and> map length cs2 = map length (cells t)
       \<and> (\<forall>r c. inGrid (cells t) r c \<longrightarrow>
            cs2 ! r ! c = (if (r, c) \<in> set ps then unit r c (cells t ! r ! c) else cells t ! r ! c))"
  proof (rule forEachCoord_pointwise)
    show "coordsInGrid (cells t) ps" using inb by (simp add: ps_def)
    show "distinct ps" by (simp add: ps_def regionCoords_def rectCoords_distinct)
    show "unmergeCell (r, c) s = modifyCell r c (unit r c) s" for r c s
      by (simp add: unmergeCell_modify unit_def)
  qed
  then obtain cs2 where loop: "forEachCoord unmergeCell ps (cells t) = Some cs2"
    and shape2: "map length cs2 = map length (cells t)"
    and pw2: "\<forall>r c. inGrid (cells t) r c \<longrightarrow>
            cs2 ! r ! c = (if (r, c) \<in> set ps then unit r c (cells t ! r ! c) else cells t ! r ! c)"
    by (elim exE conjE)
  have res: "splitSelected t (Some sel) = Some (t\<lparr>cells := cs2\<rparr>)"
    using root merged loop
    by (auto simp: splitSelected_def Let_def ps_def regionCoords_def)
  show ?thesis
  proof (intro exI conjI allI impI)
    show "splitSelected t (Some sel) = Some (t\<lparr>cells := cs2\<rparr>)" by (rule res)
    show "t\<lparr>cells := cs2\<rparr> = t\<lparr>cells := cells (t\<lparr>cells := cs2\<rparr>)\<rparr>" by simp
    show "map length (cells (t\<lparr>cells := cs2\<rparr>)) = map length (cells t)"
      using shape2 by simp
    fix r c assume "inGrid (cells t) r c"
    with pw2
    show "cells (t\<lparr>cells := cs2\<rparr>) ! r ! c =
            (if (r, c) \<in> set (regionCoords rootCell (startRow sel) (startCol sel))
             then (cells t ! r ! c)\<lparr>hidden := False, rowSpan := 1, colSpan := 1\<rparr>
             else cells t ! r ! c)"
      by (simp add: ps_def unit_def)
  qed
qed

lemma unitCells_member:
  "unitCells cs ps \<Longrightarrow> (r, c) \<in> set ps \<Longrightarrow>
     rowSpan (cs ! r ! c) = 1 \<and> colSpan (cs ! r ! c) = 1 \<and> \<not> hidden (cs ! r ! c)"
  by (auto simp: unitCells_def list_all_iff)

lemma unitCells_visible: "unitCells cs ps \<Longrightarrow> \<not> hiddenAmong cs ps"
  by (auto simp: unitCells_def hiddenAmong_def list_all_iff list_ex_iff)

lemma cell_eqI:
  "cellValue a = cellValue b \<Longrightarrow> rowSpan a = rowSpan b \<Longrightarrow> colSpan a = colSpan b \<Longrightarrow>
     hidden a = hidden b \<Longrightarrow> a = b" for a b :: TableCell
  by (rule TableCell.equality) simp_all

lemma merge_split_identity:
  assumes order: "startRow sel \<le> endRow sel" "startCol sel \<le> endCol sel"
    and inb: "coordsInGrid (cells t) (selectedCoords sel)"
    and units: "unitCells (cells t) (selectedCoords sel)"
  shows "\<exists>t1. mergeSelected t (Some sel) = Some t1 \<and> splitSelected t1 (Some sel) = Some t"
proof (cases "singleCell sel")
  case True
  have start: "(startRow sel, startCol sel) \<in> set (selectedCoords sel)"
    using order by (simp add: selectedCoords_member)
  have m: "mergeSelected t (Some sel) = Some t"
    using inb True by (simp add: merge_noop)
  have "cellAt (cells t) (startRow sel) (startCol sel) = Some (cells t ! startRow sel ! startCol sel)"
    using coordsInGrid_member [OF inb start] by (simp add: cellAt_def)
  then have "splitSelected t (Some sel) = Some t"
    using unitCells_member [OF units start] by (simp add: split_unit)
  with m show ?thesis by simp
next
  case False
  let ?sr = "startRow sel" and ?sc = "startCol sel"
  have mins: "min ?sr (endRow sel) = ?sr" "max ?sr (endRow sel) = endRow sel"
    "min ?sc (endCol sel) = ?sc" "max ?sc (endCol sel) = endCol sel"
    using order by simp_all
  have start: "(?sr, ?sc) \<in> set (selectedCoords sel)"
    using order by (simp add: selectedCoords_member)
  from merge_proper [OF inb False unitCells_visible [OF units]]
  obtain t1 where m: "mergeSelected t (Some sel) = Some t1" and rec1: "t1 = t\<lparr>cells := cells t1\<rparr>"
    and shape1: "map length (cells t1) = map length (cells t)"
    and pw1: "\<forall>r c. inGrid (cells t) r c \<longrightarrow>
          cells t1 ! r ! c =
            (if r = ?sr \<and> c = ?sc
             then (cells t ! r ! c)\<lparr>rowSpan := endRow sel - ?sr + 1, colSpan := endCol sel - ?sc + 1\<rparr>
             else if (r, c) \<in> set (selectedCoords sel) then (cells t ! r ! c)\<lparr>hidden := True\<rparr>
             else cells t ! r ! c)"
    unfolding mins by (elim exE conjE)
  define rootCell where "rootCell = cells t1 ! ?sr ! ?sc"
  have g0: "inGrid (cells t) ?sr ?sc"
    using inb start by (rule coordsInGrid_member)
  have rootEq: "rootCell = (cells t ! ?sr ! ?sc)\<lparr>rowSpan := endRow sel - ?sr + 1, colSpan := endCol sel - ?sc + 1\<rparr>"
    using pw1 g0 by (simp add: rootCell_def)
  have root: "cellAt (cells t1) ?sr ?sc = Some rootCell"
    using g0 by (simp add: cellAt_def inGrid_shape [OF shape1] rootCell_def)
  have region: "regionCoords rootCell ?sr ?sc = selectedCoords sel"
    using order by (simp add: regionCoords_def selectedCoords_def rootEq mins)
  have inb1: "coordsInGrid (cells t1) (regionCoords rootCell ?sr ?sc)"
    using inb by (simp add: region coordsInGrid_shape [OF shape1])
  have merged: "\<not> (rowSpan rootCell = 1 \<and> colSpan rootCell = 1)"
    using False order by (auto simp: rootEq singleCell_def)
  from split_proper [OF root inb1 merged]
  obtain t2 where s: "splitSelected t1 (Some sel) = Some t2" and rec2: "t2 = t1\<lparr>cells := cells t2\<rparr>"
    and shape2: "map length (cells t2) = map length (cells t1)"
    and pw2: "\<forall>r c. inGrid (cells t1) r c \<longrightarrow>
          cells t2 ! r ! c =
            (if (r, c) \<in> set (selectedCoords sel)
             then (cells t1 ! r ! c)\<lparr>hidden := False, rowSpan := 1, colSpan := 1\<rparr>
             else cells t1 ! r ! c)"
    unfolding region by (elim exE conjE)
  have "cells t2 = cells t"
  proof (rule grid_eqI)
    show "map length (cells t2) = map length (cells t)"
      using shape2 shape1 by simp
    fix r c assume g: "inGrid (cells t) r c"
    then have g1: "inGrid (cells t1) r c" by (simp add: inGrid_shape [OF shape1])
    note a1 = pw1 [rule_format, OF g] and a2 = pw2 [rule_format, OF g1]
    show "cells t2 ! r ! c = cells t ! r ! c"
    proof (cases "(r, c) \<in> set (selectedCoords sel)")
      case True
      from unitCells_member [OF units True]
      have u: "rowSpan (cells t ! r ! c) = 1" "colSpan (cells t ! r ! c) = 1"
        "\<not> hidden (cells t ! r ! c)"
        by simp_all
      from a1 a2 True have "cells t2 ! r ! c
          = (if r = ?sr \<and> c = ?sc
             then (cells t ! r ! c)\<lparr>rowSpan := endRow sel - ?sr + 1, colSpan := endCol sel - ?sc + 1\<rparr>
             else (cells t ! r ! c)\<lparr>hidden := True\<rparr>)\<lparr>hidden := False, rowSpan := 1, colSpan := 1\<rparr>"
        by simp
      then show ?thesis
        using u by (intro cell_eqI) (simp_all split: if_splits)
    next
      case False
      with start have "\<not> (r = ?sr \<and> c = ?sc)" by auto
      with a1 a2 False show ?thesis by simp
    qed
  qed
  with rec1 rec2 have "t2 = t"
    by (metis TableData.surjective TableData.update_convs(6))
  with m s show ?thesis by simp
qed

text \<open>
  A selection can outlive the cells it names (select, then \<open>removeRow\<close>). When its rectangle
  does not lie within the grid, merge throws or returns: the owner keeps the table.
\<close>

lemma anyHidden_outside: "\<not> coordsInGrid cs ps \<Longrightarrow> anyHidden cs ps \<noteq> Some False"
  by (induction ps) (auto simp: coordsInGrid_def cellAt_def split: if_splits)

lemma merge_outside_grid:
  assumes "\<not> coordsInGrid (cells t) (selectedCoords sel)"
  shows "mergeSelected t (Some sel) = None \<or> mergeSelected t (Some sel) = Some t"
  using anyHidden_outside [OF assms]
  by (auto simp: mergeSelected_def Let_def selectedCoords_def split: option.splits bool.splits)



text \<open>
  Claim C1, as amended. Let the selection start at the top-left corner of its rectangle
  (start row at most end row, start column at most end column), let the rectangle lie within
  the grid and consist of unit, non-hidden cells. Then merge followed by split with the same
  selection gives back the table it started from: every cell of the rectangle is a unit,
  non-hidden cell again and every value is the original one.
\<close>

theorem merge_split_round_trip:
  assumes "startRow sel \<le> endRow sel" and "startCol sel \<le> endCol sel"
    and "coordsInGrid (cells t) (selectedCoords sel)"
    and "unitCells (cells t) (selectedCoords sel)"
  shows "\<exists>t1. mergeSelected t (Some sel) = Some t1 \<and> splitSelected t1 (Some sel) = Some t"
  using assms by (rule merge_split_identity)

theorem merge_split_round_trip_witness:
  "mergeSelected sampleTable (Some sampleSelection) = Some mergedSample
   \<and> splitSelected mergedSample (Some sampleSelection) = Some sampleTable"
proof -
  have o: "startRow sampleSelection \<le> endRow sampleSelection"
    "startCol sampleSelection \<le> endCol sampleSelection"
    by code_simp+
  have g: "coordsInGrid (cells sampleTable) (selectedCoords sampleSelection)" by code_simp
  have u: "unitCells (cells sampleTable) (selectedCoords sampleSelection)" by code_simp
  have m: "mergeSelected sampleTable (Some sampleSelection) = Some mergedSample" by code_simp
  from merge_split_round_trip [OF o g u] m show ?thesis by simp
qed

text \<open>
  The claim as stated fails for the other corner orders. After a drag from \<open>(1, 1)\<close> to
  \<open>(0, 0)\<close> merge builds the region rooted at \<open>(0, 0)\<close>, but split looks at the start cell
  \<open>(1, 1)\<close>, finds the spans 1 and 1 there, and returns: the region stays merged.
\<close>

theorem merge_split_corner_counterexample:
  "unitCells (cells sampleTable) (selectedCoords (swapCorners sampleSelection))
   \<and> mergeSelected sampleTable (Some (swapCorners sampleSelection)) = Some mergedSample
   \<and> splitSelected mergedSample (Some (swapCorners sampleSelection)) = Some mergedSample
   \<and> rowSpan (cells mergedSample ! 0 ! 0) = 2 \<and> colSpan (cells mergedSample ! 0 ! 0) = 2
   \<and> hidden (cells mergedSample ! 1 ! 1)"
  by code_simp

text \<open>
  Claim C2, as amended. Split reads the cell at the start of the selection. When that cell is
  the root of a merged region (its spans are not both 1) and the rectangle of its spans lies
  within the grid, split makes every cell of that rectangle a unit, non-hidden cell and
  changes nothing else. When the spans of that cell are both 1, as they are for a hidden
  member of a region merged from unit cells, split leaves the table unchanged.
\<close>

theorem split_at_root:
  assumes "cellAt (cells t) (startRow sel) (startCol sel) = Some rootCell"
    and "coordsInGrid (cells t) (regionCoords rootCell (startRow sel) (startCol sel))"
  shows "(rowSpan rootCell = 1 \<and> colSpan rootCell = 1 \<longrightarrow> splitSelected t (Some sel) = Some t)
     \<and> (\<not> (rowSpan rootCell = 1 \<and> colSpan rootCell = 1) \<longrightarrow>
          (\<exists>t'. splitSelected t (Some sel) = Some t' \<and> t' = t\<lparr>cells := cells t'\<rparr>
             \<and> map length (cells t') = map length (cells t)
             \<and> (\<forall>r c. inGrid (cells t) r c \<longrightarrow>
                  cells t' ! r ! c =
                    (if (r, c) \<in> set (regionCoords rootCell (startRow sel) (startCol sel))
                     then (cells t ! r ! c)\<lparr>hidden := False, rowSpan := 1, colSpan := 1\<rparr>
                     else cells t ! r ! c))))"
  using split_unit [OF assms(1)] split_proper [OF assms] by blast

theorem split_at_root_witness:
  "splitSelected mergedSample (Some \<lparr>startRow = 0, startCol = 0, endRow = 0, endCol = 0\<rparr>)
     = Some sampleTable
   \<and> splitSelected sampleTable (Some \<lparr>startRow = 0, startCol = 0, endRow = 0, endCol = 0\<rparr>)
     = Some sampleTable"
proof -
  let ?sel = "\<lparr>startRow = 0, startCol = 0, endRow = 0, endCol = 0\<rparr>"
  have r1: "cellAt (cells mergedSample) (startRow ?sel) (startCol ?sel)
      = Some (createCell\<lparr>rowSpan := 2, colSpan := 2\<rparr>)"
    by code_simp
  have g1: "coordsInGrid (cells mergedSample)
      (regionCoords (createCell\<lparr>rowSpan := 2, colSpan := 2\<rparr>) (startRow ?sel) (startCol ?sel))"
    by code_simp
  have n1: "\<not> (rowSpan (createCell\<lparr>rowSpan := 2, colSpan := 2\<rparr>) = 1
      \<and> colSpan (createCell\<lparr>rowSpan := 2, colSpan := 2\<rparr>) = 1)"
    by code_simp
  have s1: "splitSelected mergedSample (Some ?sel) = Some sampleTable" by code_simp
  have r2: "cellAt (cells sampleTable) (startRow ?sel) (startCol ?sel) = Some createCell"
    by code_simp
  have g2: "coordsInGrid (cells sampleTable) (regionCoords createCell (startRow ?sel) (startCol ?sel))"
    by code_simp
  have n2: "rowSpan createCell = 1 \<and> colSpan createCell = 1" by code_simp
  from split_at_root [OF r1 g1] split_at_root [OF r2 g2] n1 n2 s1 show ?thesis by simp
qed

text \<open>
  The claim as stated fails at the hidden members: \<open>(0, 1)\<close> is hidden in the region rooted at
  \<open>(0, 0)\<close>, its own spans are 1 and 1, and split anchored there changes nothing.
\<close>

theorem split_at_hidden_member_counterexample:
  "hidden (cells mergedSample ! 0 ! 1)
   \<and> splitSelected mergedSample (Some \<lparr>startRow = 0, startCol = 1, endRow = 0, endCol = 1\<rparr>)
       = Some mergedSample
   \<and> rowSpan (cells mergedSample ! 0 ! 0) = 2 \<and> colSpan (cells mergedSample ! 0 ! 0) = 2
   \<and> hidden (cells mergedSample ! 1 ! 0) \<and> hidden (cells mergedSample ! 1 ! 1)"
  by code_simp

subsection \<open>Paste and copy\<close>

paragraph \<open>Splitting and joining text\<close>

lemma splitOn_nonempty: "splitOn sep s \<noteq> []"
  by (induction s) simp_all

lemma joinWith_Cons: "ls \<noteq> [] \<Longrightarrow> joinWith sep (l # ls) = l @ sep # joinWith sep ls"
  by (cases ls) simp_all

lemma joinWith_splitOn: "joinWith sep (splitOn sep s) = s"
proof (induction s)
  case Nil
  then show ?case by simp
next
  case (Cons ch rest)
  obtain p ps where r: "splitOn sep rest = p # ps"
    using splitOn_nonempty [of sep rest] by (cases "splitOn sep rest") auto
  show ?case
  proof (cases "ch = sep")
    case True
    with Cons show ?thesis by (simp add: joinWith_Cons splitOn_nonempty)
  next
    case False
    with Cons r show ?thesis by (cases ps) simp_all
  qed
qed

lemma splitOn_pieces: "p \<in> set (splitOn sep s) \<Longrightarrow> sep \<notin> set p"
proof (induction s arbitrary: p)
  case Nil
  then show ?case by simp
next
  case (Cons ch rest)
  obtain q qs where r: "splitOn sep rest = q # qs"
    using splitOn_nonempty [of sep rest] by (cases "splitOn sep rest") auto
  with Cons show ?case
    by (auto split: if_splits)
qed

lemma splitOn_plain: "sep \<notin> set s \<Longrightarrow> splitOn sep s = [s]"
  by (induction s) auto

lemma splitOn_append: "sep \<notin> set s \<Longrightarrow> splitOn sep (s @ sep # rest) = s # splitOn sep rest"
  by (induction s) auto

lemma splitOn_joinWith:
  "ls \<noteq> [] \<Longrightarrow> \<forall>l \<in> set ls. sep \<notin> set l \<Longrightarrow> splitOn sep (joinWith sep ls) = ls"
  by (induction sep ls rule: joinWith.induct) (simp_all add: splitOn_plain splitOn_append)

lemma joinWith_chars: "ch \<in> set (joinWith sep ls) \<Longrightarrow> ch = sep \<or> (\<exists>l \<in> set ls. ch \<in> set l)"
  by (induction sep ls rule: joinWith.induct) auto

paragraph \<open>Cells after a paste\<close>

lemma pasteCell_nth:
  "inGrid cs r c \<Longrightarrow>
     pasteCell row col v cs ! r ! c
       = (if r = row \<and> c = col \<and> \<not> hidden (cs ! r ! c) then (cs ! r ! c)\<lparr>cellValue := v\<rparr>
          else cs ! r ! c)"
  by (auto simp: pasteCell_def grid_update_nth)

lemma pasteLine_nth:
  "inGrid cs r c \<Longrightarrow>
     pasteLine row sCol cOff vs cs ! r ! c
       = (if r = row \<and> sCol + cOff \<le> c \<and> c < sCol + cOff + length vs \<and> \<not> hidden (cs ! r ! c)
          then (cs ! r ! c)\<lparr>cellValue := vs ! (c - (sCol + cOff))\<rparr>
          else cs ! r ! c)"
proof (induction vs arbitrary: cOff cs)
  case Nil
  then show ?case by auto
next
  case (Cons v vs)
  define cs1 where "cs1 = pasteCell row (sCol + cOff) v cs"
  have shape1: "map length cs1 = map length cs"
    by (simp add: cs1_def pasteCell_shape)
  from Cons.prems have g1: "inGrid cs1 r c"
    by (simp add: inGrid_shape [OF shape1])
  have at1: "cs1 ! r ! c
       = (if r = row \<and> c = sCol + cOff \<and> \<not> hidden (cs ! r ! c) then (cs ! r ! c)\<lparr>cellValue := v\<rparr>
          else cs ! r ! c)"
    unfolding cs1_def using Cons.prems by (rule pasteCell_nth)
  have step: "pasteLine row sCol cOff (v # vs) cs ! r ! c
       = (if r = row \<and> sCol + Suc cOff \<le> c \<and> c < sCol + Suc cOff + length vs \<and> \<not> hidden (cs1 ! r ! c)
          then (cs1 ! r ! c)\<lparr>cellValue := vs ! (c - (sCol + Suc cOff))\<rparr>
          else cs1 ! r ! c)"
    using Cons.IH [OF g1] by (simp add: cs1_def)
  show ?case
  proof (cases "c = sCol + cOff")
    case True
    with step at1 show ?thesis by auto
  next
    case False
    then have "c - (sCol + cOff) = Suc (c - (sCol + Suc cOff))" if "sCol + cOff \<le> c"
      using that by simp
    with False step at1 show ?thesis
      by (auto simp: Suc_le_eq)
  qed
qed

lemma pasteLines_nth:
  "inGrid cs r c \<Longrightarrow>
     pasteLines sRow sCol rOff ls cs ! r ! c
       = (if sRow + rOff \<le> r \<and> r < sRow + rOff + length ls
             \<and> sCol \<le> c \<and> c < sCol + length (ls ! (r - (sRow + rOff))) \<and> \<not> hidden (cs ! r ! c)
          then (cs ! r ! c)\<lparr>cellValue := ls ! (r - (sRow + rOff)) ! (c - sCol)\<rparr>
          else cs ! r ! c)"
proof (induction ls arbitrary: rOff cs)
  case Nil
  then show ?case by auto
next
  case (Cons l ls)
  define cs1 where "cs1 = pasteLine (sRow + rOff) sCol 0 l cs"
  have shape1: "map length cs1 = map length cs"
    by (simp add: cs1_def pasteLine_shape)
  from Cons.prems have g1: "inGrid cs1 r c"
    by (simp add: inGrid_shape [OF shape1])
  have at1: "cs1 ! r ! c
       = (if r = sRow + rOff \<and> sCol \<le> c \<and> c < sCol + length l \<and> \<not> hidden (cs ! r ! c)
          then (cs ! r ! c)\<lparr>cellValue := l ! (c - sCol)\<rparr>
          else cs ! r ! c)"
    unfolding cs1_def using pasteLine_nth [OF Cons.prems, of "sRow + rOff" sCol 0 l] by auto
  have step: "pasteLines sRow sCol rOff (l # ls) cs ! r ! c
       = (if sRow + Suc rOff \<le> r \<and> r < sRow + Suc rOff + length ls
             \<and> sCol \<le> c \<and> c < sCol + length (ls ! (r - (sRow + Suc rOff))) \<and> \<not> hidden (cs1 ! r ! c)
          then (cs1 ! r ! c)\<lparr>cellValue := ls ! (r - (sRow + Suc rOff)) ! (c - sCol)\<rparr>
          else cs1 ! r ! c)"
    using Cons.IH [OF g1] by (simp add: cs1_def)
  show ?case
  proof (cases "r = sRow + rOff")
    case True
    with step at1 show ?thesis by auto
  next
    case False
    then have "r - (sRow + rOff) = Suc (r - (sRow + Suc rOff))" if "sRow + rOff \<le> r"
      using that by simp
    with False step at1 show ?thesis
      by (auto simp: Suc_le_eq)
  qed
qed

lemma splitOn_subset: "p \<in> set (splitOn sep s) \<Longrightarrow> set p \<subseteq> set s"
proof (induction s arbitrary: p)
  case Nil
  then show ?case by simp
next
  case (Cons ch rest)
  obtain q qs where r: "splitOn sep rest = q # qs"
    using splitOn_nonempty [of sep rest] by (cases "splitOn sep rest") auto
  with Cons show ?case
    by (fastforce split: if_splits)
qed

lemma pasted_lines_join:
  "joinWith newlineChar (map (joinWith tabChar) (map (splitOn tabChar) (splitOn newlineChar pasted)))
     = pasted"
  by (simp add: o_def joinWith_splitOn)

lemma pasted_lines_plain:
  assumes "line \<in> set (map (splitOn tabChar) (splitOn newlineChar pasted))" and "v \<in> set line"
  shows "tabChar \<notin> set v \<and> newlineChar \<notin> set v"
proof -
  from assms(1) obtain l where l: "l \<in> set (splitOn newlineChar pasted)"
    and line: "line = splitOn tabChar l"
    by auto
  from l have "newlineChar \<notin> set l" by (rule splitOn_pieces)
  moreover from assms(2) line have "set v \<subseteq> set l" by (simp add: splitOn_subset)
  moreover from assms(2) line have "tabChar \<notin> set v" by (simp add: splitOn_pieces)
  ultimately show ?thesis by auto
qed

text \<open>
  Claim C8, as amended. Pasting the empty text leaves the table unchanged. Pasting any other
  text never fails; the text is split at newlines and each line at tabs (joining the pieces
  again gives the text back, and no piece holds a tab or a newline); the string in line
  \<open>rOff\<close> at position \<open>cOff\<close> overwrites the value of the cell at
  \<open>(startRow + rOff, startCol + cOff)\<close> when that cell exists and is not hidden, and every
  other cell, value included, stays as it was. Spans, hidden flags, the shape of the grid and
  all other fields of the table are unchanged.
\<close>

theorem paste_behaviour:
  assumes lines: "lines = map (splitOn tabChar) (splitOn newlineChar pasted)"
    and t': "t' = onPaste t (Some sel) pasted"
  shows "(pasted = [] \<longrightarrow> t' = t)
     \<and> (pasted \<noteq> [] \<longrightarrow>
          joinWith newlineChar (map (joinWith tabChar) lines) = pasted
          \<and> (\<forall>line \<in> set lines. \<forall>v \<in> set line. tabChar \<notin> set v \<and> newlineChar \<notin> set v)
          \<and> t' = t\<lparr>cells := cells t'\<rparr>
          \<and> map length (cells t') = map length (cells t)
          \<and> (\<forall>r c. inGrid (cells t) r c \<longrightarrow>
                cells t' ! r ! c =
                  (if startRow sel \<le> r \<and> r < startRow sel + length lines
                      \<and> startCol sel \<le> c \<and> c < startCol sel + length (lines ! (r - startRow sel))
                      \<and> \<not> hidden (cells t ! r ! c)
                   then (cells t ! r ! c)\<lparr>cellValue := lines ! (r - startRow sel) ! (c - startCol sel)\<rparr>
                   else cells t ! r ! c)
                \<and> rowSpan (cells t' ! r ! c) = rowSpan (cells t ! r ! c)
                \<and> colSpan (cells t' ! r ! c) = colSpan (cells t ! r ! c)
                \<and> hidden (cells t' ! r ! c) = hidden (cells t ! r ! c)))"
proof (intro conjI impI)
  assume "pasted = []"
  then show "t' = t" by (simp add: t' onPaste_def)
next
  assume ne: "pasted \<noteq> []"
  show "joinWith newlineChar (map (joinWith tabChar) lines) = pasted"
    unfolding lines by (rule pasted_lines_join)
  show "\<forall>line \<in> set lines. \<forall>v \<in> set line. tabChar \<notin> set v \<and> newlineChar \<notin> set v"
    unfolding lines using pasted_lines_plain by blast
  have cells': "cells t' = pasteLines (startRow sel) (startCol sel) 0 lines (cells t)"
    using ne by (simp add: t' onPaste_def lines)
  show "t' = t\<lparr>cells := cells t'\<rparr>"
    using ne by (simp add: t' onPaste_def)
  show "map length (cells t') = map length (cells t)"
    by (simp add: cells' pasteLines_shape)
  show "\<forall>r c. inGrid (cells t) r c \<longrightarrow>
                cells t' ! r ! c =
                  (if startRow sel \<le> r \<and> r < startRow sel + length lines
                      \<and> startCol sel \<le> c \<and> c < startCol sel + length (lines ! (r - startRow sel))
                      \<and> \<not> hidden (cells t ! r ! c)
                   then (cells t ! r ! c)\<lparr>cellValue := lines ! (r - startRow sel) ! (c - startCol sel)\<rparr>
                   else cells t ! r ! c)
                \<and> rowSpan (cells t' ! r ! c) = rowSpan (cells t ! r ! c)
                \<and> colSpan (cells t' ! r ! c) = colSpan (cells t ! r ! c)
                \<and> hidden (cells t' ! r ! c) = hidden (cells t ! r ! c)"
  proof (intro allI impI)
    fix r c assume g: "inGrid (cells t) r c"
    have at: "cells t' ! r ! c =
                  (if startRow sel \<le> r \<and> r < startRow sel + length lines
                      \<and> startCol sel \<le> c \<and> c < startCol sel + length (lines ! (r - startRow sel))
                      \<and> \<not> hidden (cells t ! r ! c)
                   then (cells t ! r ! c)\<lparr>cellValue := lines ! (r - startRow sel) ! (c - startCol sel)\<rparr>
                   else cells t ! r ! c)"
      unfolding cells' using pasteLines_nth [OF g, of "startRow sel" "startCol sel" 0 lines] by simp
    then show "cells t' ! r ! c =
                  (if startRow sel \<le> r \<and> r < startRow sel + length lines
                      \<and> startCol sel \<le> c \<and> c < startCol sel + length (lines ! (r - startRow sel))
                      \<and> \<not> hidden (cells t ! r ! c)
                   then (cells t ! r ! c)\<lparr>cellValue := lines ! (r - startRow sel) ! (c - startCol sel)\<rparr>
                   else cells t ! r ! c)
                \<and> rowSpan (cells t' ! r ! c) = rowSpan (cells t ! r ! c)
                \<and> colSpan (cells t' ! r ! c) = colSpan (cells t ! r ! c)
                \<and> hidden (cells t' ! r ! c) = hidden (cells t ! r ! c)"
      by simp
  qed
qed

theorem paste_behaviour_witness:
  "map (splitOn tabChar) (splitOn newlineChar [CHR ''A'', tabChar, CHR ''B'', newlineChar, CHR ''C''])
     = [[''A'', ''B''], [''C'']]
   \<and> map (map cellValue) (cells (onPaste mergedSample (Some cornerSelection)
        [CHR ''A'', tabChar, CHR ''B'', newlineChar, CHR ''C'']))
     = [['''', '''', '''', ''''], ['''', '''', '''', ''''], ['''', '''', '''', ''''], ['''', '''', '''', ''A'']]
   \<and> map (map cellValue) (cells (onPaste mergedSample (Some sampleSelection)
        [CHR ''A'', tabChar, CHR ''B'', newlineChar, CHR ''C'']))
     = [[''A'', '''', '''', ''''], ['''', '''', '''', ''''], ['''', '''', '''', ''''], ['''', '''', '''', '''']]
   \<and> onPaste mergedSample (Some sampleSelection) [] = mergedSample"
proof -
  let ?text = "[CHR ''A'', tabChar, CHR ''B'', newlineChar, CHR ''C'']"
  have l: "map (splitOn tabChar) (splitOn newlineChar ?text) = [[''A'', ''B''], [''C'']]"
    by code_simp
  have ne: "?text \<noteq> []" by simp
  have c: "map (map cellValue) (cells (onPaste mergedSample (Some cornerSelection) ?text))
     = [['''', '''', '''', ''''], ['''', '''', '''', ''''], ['''', '''', '''', ''''], ['''', '''', '''', ''A'']]"
    by code_simp
  have s: "map (map cellValue) (cells (onPaste mergedSample (Some sampleSelection) ?text))
     = [[''A'', '''', '''', ''''], ['''', '''', '''', ''''], ['''', '''', '''', ''''], ['''', '''', '''', '''']]"
    by code_simp
  from paste_behaviour [where t = mergedSample and sel = cornerSelection, OF l [symmetric] refl]
    paste_behaviour [where t = mergedSample and sel = sampleSelection and pasted = "[]", OF refl refl]
    ne l c s
  show ?thesis by simp
qed

text \<open>
  The claim as stated fails for the empty text: splitting it gives one line holding one
  empty string, so the anchor cell would be overwritten by the empty string; but
  \<open>onPaste\<close> returns at \<open>if (!pasted) return\<close> and the anchor keeps its value.
\<close>

theorem paste_empty_text_counterexample:
  "map (splitOn tabChar) (splitOn newlineChar []) = [['''']]
   \<and> cellValue (cells lettersTable ! 0 ! 0) = ''A'' \<and> \<not> hidden (cells lettersTable ! 0 ! 0)
   \<and> cellValue (cells (onPaste lettersTable (Some sampleSelection) []) ! 0 ! 0) = ''A''"
  by code_simp

paragraph \<open>Copy\<close>

lemma arrayFrom_Some:
  "(\<And>i. i \<in> set ixs \<Longrightarrow> f i = Some (g i)) \<Longrightarrow> arrayFrom f ixs = Some (map g ixs)"
  by (induction ixs) simp_all


lemma copy_rows:
  assumes g: "\<And>i j. i < h \<Longrightarrow> j < w \<Longrightarrow> inGrid cs (r0 + i) (c0 + j)"
  shows "arrayFrom (\<lambda>rOff. do { vs \<leftarrow> arrayFrom
                 (\<lambda>cOff. do { cell \<leftarrow> cellAt cs (r0 + rOff) (c0 + cOff);
                              Some (if hidden cell then [] else cellValue cell) }) [0..<w];
               Some (joinWith tabChar vs) }) [0..<h]
      = Some (map (\<lambda>rOff. joinWith tabChar
           (map (\<lambda>cOff. shownText (cs ! (r0 + rOff) ! (c0 + cOff))) [0..<w])) [0..<h])"
proof (rule arrayFrom_Some)
  fix rOff assume "rOff \<in> set [0..<h]"
  then have r: "rOff < h" by simp
  have "arrayFrom (\<lambda>cOff. do { cell \<leftarrow> cellAt cs (r0 + rOff) (c0 + cOff);
                                     Some (if hidden cell then [] else cellValue cell) }) [0..<w]
      = Some (map (\<lambda>cOff. shownText (cs ! (r0 + rOff) ! (c0 + cOff))) [0..<w])"
  proof (rule arrayFrom_Some)
    fix cOff assume "cOff \<in> set [0..<w]"
    then have "cOff < w" by simp
    with r have "inGrid cs (r0 + rOff) (c0 + cOff)" by (rule g)
    then show "do { cell \<leftarrow> cellAt cs (r0 + rOff) (c0 + cOff);
               Some (if hidden cell then [] else cellValue cell) }
        = Some (shownText (cs ! (r0 + rOff) ! (c0 + cOff)))"
      by (simp add: cellAt_def shownText_def)
  qed
  then show "do { vs \<leftarrow> arrayFrom
                 (\<lambda>cOff. do { cell \<leftarrow> cellAt cs (r0 + rOff) (c0 + cOff);
                              Some (if hidden cell then [] else cellValue cell) }) [0..<w];
               Some (joinWith tabChar vs) }
        = Some (joinWith tabChar
           (map (\<lambda>cOff. shownText (cs ! (r0 + rOff) ! (c0 + cOff))) [0..<w]))"
    by simp
qed


lemma selection_offsets_member:
  assumes i: "i < max (startRow sel) (endRow sel) - min (startRow sel) (endRow sel) + 1"
    and j: "j < max (startCol sel) (endCol sel) - min (startCol sel) (endCol sel) + 1"
  shows "(min (startRow sel) (endRow sel) + i, min (startCol sel) (endCol sel) + j)
     \<in> set (selectedCoords sel)"
proof -
  define minRow where "minRow = min (startRow sel) (endRow sel)"
  define maxRow where "maxRow = max (startRow sel) (endRow sel)"
  define minCol where "minCol = min (startCol sel) (endCol sel)"
  define maxCol where "maxCol = max (startCol sel) (endCol sel)"
  have le: "minRow \<le> maxRow" "minCol \<le> maxCol"
    by (simp_all add: minRow_def maxRow_def minCol_def maxCol_def)
  from i j have "i < maxRow - minRow + 1" "j < maxCol - minCol + 1"
    by (simp_all add: minRow_def maxRow_def minCol_def maxCol_def)
  with le have "minRow \<le> minRow + i \<and> minRow + i \<le> maxRow
      \<and> minCol \<le> minCol + j \<and> minCol + j \<le> maxCol"
    by arith
  then show ?thesis
    unfolding selectedCoords_member minRow_def maxRow_def minCol_def maxCol_def .
qed

lemma selection_offsets:
  assumes inb: "coordsInGrid cs (selectedCoords sel)"
    and i: "i < max (startRow sel) (endRow sel) - min (startRow sel) (endRow sel) + 1"
    and j: "j < max (startCol sel) (endCol sel) - min (startCol sel) (endCol sel) + 1"
  shows "inGrid cs (min (startRow sel) (endRow sel) + i) (min (startCol sel) (endCol sel) + j)"
  using inb selection_offsets_member [OF i j] by (rule coordsInGrid_member)

lemma onCopy_inGrid:
  assumes inb: "coordsInGrid (cells t) (selectedCoords sel)"
  shows "onCopy t (Some sel) clipboard =
     Some (joinWith newlineChar
       (map (\<lambda>rOff. joinWith tabChar
          (map (\<lambda>cOff. shownText (cells t ! (min (startRow sel) (endRow sel) + rOff)
                                            ! (min (startCol sel) (endCol sel) + cOff)))
             [0..<max (startCol sel) (endCol sel) - min (startCol sel) (endCol sel) + 1]))
          [0..<max (startRow sel) (endRow sel) - min (startRow sel) (endRow sel) + 1]))"
  unfolding onCopy_def Let_def option.case
  by (subst copy_rows [OF selection_offsets [OF inb]]) simp_all


text \<open>When the rectangle does not lie within the grid, copy throws.\<close>

lemma arrayFrom_None: "i \<in> set ixs \<Longrightarrow> f i = None \<Longrightarrow> arrayFrom f ixs = None"
  by (induction ixs) (auto split: option.splits)

lemma copy_outside_grid:
  assumes "\<not> coordsInGrid (cells t) (selectedCoords sel)"
  shows "onCopy t (Some sel) clipboard = None"
proof -
  define minRow where "minRow = min (startRow sel) (endRow sel)"
  define maxRow where "maxRow = max (startRow sel) (endRow sel)"
  define minCol where "minCol = min (startCol sel) (endCol sel)"
  define maxCol where "maxCol = max (startCol sel) (endCol sel)"
  from assms obtain r c where rc: "(r, c) \<in> set (selectedCoords sel)" and out: "\<not> inGrid (cells t) r c"
    by (auto simp: coordsInGrid_def list_all_iff)
  from rc have b: "minRow \<le> r" "r \<le> maxRow" "minCol \<le> c" "c \<le> maxCol"
    by (simp_all add: selectedCoords_member minRow_def maxRow_def minCol_def maxCol_def)
  define i where "i = r - minRow"
  define j where "j = c - minCol"
  from b have i: "i \<in> set [0..<maxRow - minRow + 1]" and r: "minRow + i = r"
    unfolding i_def by (simp, arith, arith)
  from b have j: "j \<in> set [0..<maxCol - minCol + 1]" and c: "minCol + j = c"
    unfolding j_def by (simp, arith, arith)
  have "do { cell \<leftarrow> cellAt (cells t) (minRow + i) (minCol + j);
             Some (if hidden cell then [] else cellValue cell) } = None"
    using out by (simp add: r c cellAt_def)
  with j have "arrayFrom (\<lambda>cOff. do { cell \<leftarrow> cellAt (cells t) (minRow + i) (minCol + cOff);
             Some (if hidden cell then [] else cellValue cell) }) [0..<maxCol - minCol + 1] = None"
    by (rule arrayFrom_None)
  then have "do { vs \<leftarrow> arrayFrom (\<lambda>cOff. do { cell \<leftarrow> cellAt (cells t) (minRow + i) (minCol + cOff);
             Some (if hidden cell then [] else cellValue cell) }) [0..<maxCol - minCol + 1];
           Some (joinWith tabChar vs) } = None"
    by simp
  with i have "arrayFrom (\<lambda>rOff. do { vs \<leftarrow> arrayFrom
                 (\<lambda>cOff. do { cell \<leftarrow> cellAt (cells t) (minRow + rOff) (minCol + cOff);
                              Some (if hidden cell then [] else cellValue cell) }) [0..<maxCol - minCol + 1];
               Some (joinWith tabChar vs) }) [0..<maxRow - minRow + 1] = None"
    by (rule arrayFrom_None)
  then show ?thesis
    by (simp add: onCopy_def Let_def minRow_def maxRow_def minCol_def maxCol_def)
qed



lemma tab_not_newline: "tabChar \<noteq> newlineChar"
  by (simp add: tabChar_def newlineChar_def)

lemma split_joined_rows:
  assumes rows: "vs \<noteq> []"
    and cols: "\<And>row. row \<in> set vs \<Longrightarrow> row \<noteq> []"
    and plain: "\<And>row v. row \<in> set vs \<Longrightarrow> v \<in> set row \<Longrightarrow>
                  tabChar \<notin> set v \<and> newlineChar \<notin> set v"
  shows "map (splitOn tabChar) (splitOn newlineChar (joinWith newlineChar (map (joinWith tabChar) vs)))
     = vs"
proof -
  have "newlineChar \<notin> set l" if "l \<in> set (map (joinWith tabChar) vs)" for l
  proof
    assume n: "newlineChar \<in> set l"
    from that obtain row where row: "row \<in> set vs" and l: "l = joinWith tabChar row" by auto
    from n l joinWith_chars [of newlineChar tabChar row] tab_not_newline
    obtain v where "v \<in> set row" "newlineChar \<in> set v" by auto
    with plain [OF row] show False by simp
  qed
  then have "splitOn newlineChar (joinWith newlineChar (map (joinWith tabChar) vs))
      = map (joinWith tabChar) vs"
    using rows by (intro splitOn_joinWith) simp_all
  moreover have "map (splitOn tabChar) (map (joinWith tabChar) vs) = vs"
  proof -
    have "splitOn tabChar (joinWith tabChar row) = row" if "row \<in> set vs" for row
      using cols [OF that] plain [OF that] by (intro splitOn_joinWith) simp_all
    then show ?thesis
      by (simp add: map_idI)
  qed
  ultimately show ?thesis by simp
qed

lemma paste_copied_rows:
  assumes g: "\<And>i j. i < h \<Longrightarrow> j < w \<Longrightarrow> inGrid cs (r0 + i) (c0 + j)"
    and lines: "lines = map (\<lambda>i. map (\<lambda>j. shownText (cs ! (r0 + i) ! (c0 + j))) [0..<w]) [0..<h]"
  shows "pasteLines r0 c0 0 lines cs = cs"
proof (rule grid_eqI)
  show "map length (pasteLines r0 c0 0 lines cs) = map length cs"
    by (rule pasteLines_shape)
  fix r c assume rc: "inGrid cs r c"
  show "pasteLines r0 c0 0 lines cs ! r ! c = cs ! r ! c"
  proof (cases "r0 \<le> r \<and> r < r0 + length lines \<and> c0 \<le> c
      \<and> c < c0 + length (lines ! (r - r0)) \<and> \<not> hidden (cs ! r ! c)")
    case True
    then have i: "r - r0 < h" unfolding lines by simp arith
    with True have j: "c - c0 < w" unfolding lines by simp arith
    from i j True have "lines ! (r - r0) ! (c - c0) = shownText (cs ! r ! c)"
      by (simp add: lines)
    with True have "lines ! (r - r0) ! (c - c0) = cellValue (cs ! r ! c)"
      by (simp add: shownText_def)
    with True pasteLines_nth [OF rc, of r0 c0 0 lines] show ?thesis
      by simp
  next
    case False
    with pasteLines_nth [OF rc, of r0 c0 0 lines] show ?thesis
      by auto
  qed
qed

lemma plainCells_member:
  "plainCells cs ps \<Longrightarrow> (r, c) \<in> set ps \<Longrightarrow>
     \<not> hidden (cs ! r ! c) \<and> tabChar \<notin> set (cellValue (cs ! r ! c))
     \<and> newlineChar \<notin> set (cellValue (cs ! r ! c))"
  by (auto simp: plainCells_def list_all_iff)

text \<open>
  Claim C6, as amended. For a rectangle within the grid whose cells are not hidden and whose
  values contain neither a tab nor a newline, pasting the text that copy produces for the
  rectangle at its top-left cell gives back the table unchanged: every value is the original
  one.
\<close>

theorem copy_paste_round_trip:
  assumes inb: "coordsInGrid (cells t) (selectedCoords sel)"
    and plain: "plainCells (cells t) (selectedCoords sel)"
    and anchor: "startRow anchor = min (startRow sel) (endRow sel)"
      "startCol anchor = min (startCol sel) (endCol sel)"
  shows "\<exists>copied. onCopy t (Some sel) clipboard = Some copied \<and> onPaste t (Some anchor) copied = t"
proof -
  define r0 where "r0 = min (startRow sel) (endRow sel)"
  define c0 where "c0 = min (startCol sel) (endCol sel)"
  define h where "h = max (startRow sel) (endRow sel) - min (startRow sel) (endRow sel) + 1"
  define w where "w = max (startCol sel) (endCol sel) - min (startCol sel) (endCol sel) + 1"
  define vs where "vs = map (\<lambda>i. map (\<lambda>j. shownText (cells t ! (r0 + i) ! (c0 + j))) [0..<w]) [0..<h]"
  define copied where "copied = joinWith newlineChar (map (joinWith tabChar) vs)"
  have pos: "0 < h" "0 < w" by (simp_all add: h_def w_def)
  have g: "inGrid (cells t) (r0 + i) (c0 + j)" if "i < h" "j < w" for i j
    using that unfolding r0_def c0_def h_def w_def by (intro selection_offsets [OF inb])
  have p: "tabChar \<notin> set (shownText (cells t ! (r0 + i) ! (c0 + j)))
      \<and> newlineChar \<notin> set (shownText (cells t ! (r0 + i) ! (c0 + j)))" if "i < h" "j < w" for i j
    using plainCells_member [OF plain selection_offsets_member [of i sel j]] that
    by (simp add: shownText_def r0_def c0_def h_def w_def)
  have copy: "onCopy t (Some sel) clipboard = Some copied"
    by (simp add: onCopy_inGrid [OF inb] copied_def vs_def o_def r0_def c0_def h_def w_def)
  have lines: "map (splitOn tabChar) (splitOn newlineChar copied) = vs"
    unfolding copied_def
  proof (rule split_joined_rows)
    show "vs \<noteq> []" using pos by (simp add: vs_def)
    show "row \<noteq> []" if "row \<in> set vs" for row
      using that pos by (auto simp: vs_def)
    show "tabChar \<notin> set v \<and> newlineChar \<notin> set v" if "row \<in> set vs" "v \<in> set row" for row v
      using that p by (auto simp: vs_def)
  qed
  have "pasteLines r0 c0 0 vs (cells t) = cells t"
    using g vs_def by (rule paste_copied_rows)
  then have "onPaste t (Some anchor) copied = t"
    by (simp add: onPaste_def lines anchor r0_def [symmetric] c0_def [symmetric])
  with copy show ?thesis by blast
qed

theorem copy_paste_round_trip_witness:
  "onCopy lettersTable (Some sampleSelection) ''old''
       = Some [CHR ''A'', tabChar, CHR ''B'', newlineChar, tabChar]
   \<and> onPaste lettersTable (Some sampleSelection)
         [CHR ''A'', tabChar, CHR ''B'', newlineChar, tabChar] = lettersTable"
proof -
  have g: "coordsInGrid (cells lettersTable) (selectedCoords sampleSelection)" by code_simp
  have p: "plainCells (cells lettersTable) (selectedCoords sampleSelection)" by code_simp
  have a: "startRow sampleSelection = min (startRow sampleSelection) (endRow sampleSelection)"
    "startCol sampleSelection = min (startCol sampleSelection) (endCol sampleSelection)"
    by code_simp+
  have c: "onCopy lettersTable (Some sampleSelection) ''old''
       = Some [CHR ''A'', tabChar, CHR ''B'', newlineChar, tabChar]"
    by code_simp
  from copy_paste_round_trip [OF g p a, of "''old''"] c show ?thesis by simp
qed

text \<open>
  The claim as stated fails when a value holds a newline (a \<open>textarea\<close> accepts them): the
  copied text of the single cell \<open>(0, 0)\<close> is split into two lines when pasted, so \<open>(0, 0)\<close>
  keeps only the first line and the second line overwrites \<open>(1, 0)\<close>.
\<close>

theorem copy_paste_newline_counterexample:
  "\<not> hidden (cells multilineTable ! 0 ! 0) \<and> \<not> hidden (cells multilineTable ! 1 ! 0)
   \<and> cellValue (cells multilineTable ! 0 ! 0) = [CHR ''a'', newlineChar, CHR ''b'']
   \<and> cellValue (cells multilineTable ! 1 ! 0) = ''''
   \<and> onCopy multilineTable (Some \<lparr>startRow = 0, startCol = 0, endRow = 0, endCol = 0\<rparr>) ''old''
       = Some [CHR ''a'', newlineChar, CHR ''b'']
   \<and> cellValue (cells (onPaste multilineTable (Some \<lparr>startRow = 0, startCol = 0, endRow = 0, endCol = 0\<rparr>)
         [CHR ''a'', newlineChar, CHR ''b'']) ! 0 ! 0) = ''a''
   \<and> cellValue (cells (onPaste multilineTable (Some \<lparr>startRow = 0, startCol = 0, endRow = 0, endCol = 0\<rparr>)
         [CHR ''a'', newlineChar, CHR ''b'']) ! 1 ! 0) = ''b''"
  by code_simp

end
